theory Spec2Isabelle
  imports Complex_Main
begin

section \<open>Constants (src/js/utils/constants.js)\<close>

text \<open>
  A frozen object literal is an association list of its own properties, in source order.
  Reading a property the literal does not have (and \<open>Object.prototype\<close> does not have
  either) gives JavaScript's \<open>undefined\<close>, which is \<open>None\<close> here; a string value is
  \<open>Some\<close> of the string.
\<close>

definition TIMER_DURATIONS :: "(string \<times> int) list" where
  "TIMER_DURATIONS =
     [(''WORK_DURATION'', 25 * 60),
      (''SHORT_BREAK'', 5 * 60),
      (''LONG_BREAK'', 15 * 60),
      (''SESSIONS_BEFORE_LONG_BREAK'', 4)]"

definition TIMER_STATES :: "(string \<times> string) list" where
  "TIMER_STATES =
     [(''IDLE'', ''idle''),
      (''RUNNING'', ''running''),
      (''PAUSED'', ''paused'')]"

text \<open>The four expressions \<open>TIMER_STATES.X\<close> that Timer.js evaluates.\<close>

definition IDLE :: "string option" where
  "IDLE = map_of TIMER_STATES ''IDLE''"

definition RUNNING :: "string option" where
  "RUNNING = map_of TIMER_STATES ''RUNNING''"

definition PAUSED :: "string option" where
  "PAUSED = map_of TIMER_STATES ''PAUSED''"

definition COMPLETED :: "string option" where
  "COMPLETED = map_of TIMER_STATES ''COMPLETED''"

section \<open>The Timer (src/js/modules/Timer.js)\<close>

subsection \<open>Observers and the trace of what they saw\<close>

text \<open>
  An observer callback is called with the arguments of its event and either returns or
  throws. Callbacks are observers: they do not call back into the timer. What the outside
  world sees of a dispatch is recorded in a trace: each call of a callback with its
  arguments, and each \<open>console.error\<close> of the \<open>catch\<close> block.
\<close>

datatype cb_args =
    TickArgs int int real
  | CompleteArgs
  | StateChangeArgs "string option" "string option"

datatype outcome = Returns | Throws string

record callback =
  cb_name :: string
  cb_body :: "cb_args \<Rightarrow> outcome"

datatype event = Called string cb_args | ConsoleError string string

datatype js_error = TypeError string | Error string

text \<open>
  \<open>list.forEach(callback => { try { callback(args) } catch (error) { console.error(label, error) } })\<close>
\<close>

fun forEach_try :: "string \<Rightarrow> cb_args \<Rightarrow> callback list \<Rightarrow> event list \<Rightarrow> event list" where
  "forEach_try label args [] tr = tr"
| "forEach_try label args (cb # cbs) tr =
     forEach_try label args cbs
       (case cb_body cb args of
          Returns \<Rightarrow> tr @ [Called (cb_name cb) args]
        | Throws e \<Rightarrow> tr @ [Called (cb_name cb) args, ConsoleError label e])"

subsection \<open>Property lookup on the callbacks object\<close>

text \<open>
  \<open>this.#callbacks\<close> is a plain object literal, so \<open>this.#callbacks[event]\<close> finds an own
  property, or else a property inherited from \<open>Object.prototype\<close> (a function, or the
  prototype itself for \<open>__proto__\<close>: truthy values without a \<open>push\<close> method), or else
  is \<open>undefined\<close>.
\<close>

definition Object_prototype_keys :: "string list" where
  "Object_prototype_keys =
     [''constructor'', ''__defineGetter__'', ''__defineSetter__'', ''hasOwnProperty'',
      ''__lookupGetter__'', ''__lookupSetter__'', ''isPrototypeOf'',
      ''propertyIsEnumerable'', ''toString'', ''valueOf'', ''__proto__'',
      ''toLocaleString'']"

datatype 'a lookup = Own 'a | Inherited | Undefined

definition get_prop :: "(string \<times> 'a) list \<Rightarrow> string \<Rightarrow> 'a lookup" where
  "get_prop obj k =
     (case map_of obj k of
        Some v \<Rightarrow> Own v
      | None \<Rightarrow> if k \<in> set Object_prototype_keys then Inherited else Undefined)"

definition set_prop :: "(string \<times> 'a) list \<Rightarrow> string \<Rightarrow> 'a \<Rightarrow> (string \<times> 'a) list" where
  "set_prop obj k v = map (\<lambda>(k', v'). if k' = k then (k', v) else (k', v')) obj"

subsection \<open>The timer and its host\<close>

text \<open>
  The private fields of the class, the host's table of active intervals
  (\<open>setInterval\<close>/\<open>clearInterval\<close>; browser interval ids are positive integers), and the
  trace. Durations are whole seconds, and the constructor is always given its duration
  (the default argument is not modelled).
\<close>

record timer =
  duration :: int
  remainingTime :: int
  state :: "string option"
  intervalId :: "nat option"
  callbacks :: "(string \<times> callback list) list"
  host_intervals :: "nat list"
  host_next :: nat
  trace :: "event list"

definition Timer :: "int \<Rightarrow> timer" where
  "Timer d =
     \<lparr>duration = d, remainingTime = d, state = IDLE, intervalId = None,
      callbacks = [(''tick'', []), (''complete'', []), (''stateChange'', [])],
      host_intervals = [], host_next = 1, trace = []\<rparr>"

text \<open>\<open>this.#callbacks.tick\<close> and its two siblings: own properties of the literal.\<close>

definition callbacks_of :: "timer \<Rightarrow> string \<Rightarrow> callback list" where
  "callbacks_of t k = (case map_of (callbacks t) k of Some cbs \<Rightarrow> cbs | None \<Rightarrow> [])"

definition setState :: "string option \<Rightarrow> timer \<Rightarrow> timer" where
  "setState newState t =
     (if state t = newState then t
      else let oldState = state t in
        t\<lparr>state := newState,
          trace := forEach_try ''Error in stateChange callback:''
                     (StateChangeArgs newState oldState)
                     (callbacks_of t ''stateChange'') (trace t)\<rparr>)"

definition setInterval :: "timer \<Rightarrow> timer" where
  "setInterval t =
     t\<lparr>intervalId := Some (host_next t),
       host_intervals := host_intervals t @ [host_next t],
       host_next := Suc (host_next t)\<rparr>"

text \<open>\<open>if (this.#intervalId) { clearInterval(this.#intervalId); this.#intervalId = null; }\<close>\<close>

definition clearInterval_if_set :: "timer \<Rightarrow> timer" where
  "clearInterval_if_set t =
     (case intervalId t of
        None \<Rightarrow> t
      | Some i \<Rightarrow>
          if i = 0 then t
          else t\<lparr>host_intervals := removeAll i (host_intervals t), intervalId := None\<rparr>)"

definition start :: "timer \<Rightarrow> timer" where
  "start t = (if state t = RUNNING then t else setInterval (setState RUNNING t))"

definition pause :: "timer \<Rightarrow> timer" where
  "pause t = (if state t \<noteq> RUNNING then t else clearInterval_if_set (setState PAUSED t))"

definition reset :: "timer \<Rightarrow> timer" where
  "reset t = clearInterval_if_set (setState IDLE (t\<lparr>remainingTime := duration t\<rparr>))"

definition setDuration :: "int \<Rightarrow> timer \<Rightarrow> timer" where
  "setDuration seconds t = reset (t\<lparr>duration := seconds\<rparr>)"

text \<open>JavaScript's \<open>%\<close> takes the sign of the dividend.\<close>

definition js_rem :: "int \<Rightarrow> int \<Rightarrow> int" where
  "js_rem a b = (if 0 \<le> a then a mod \<bar>b\<bar> else - ((- a) mod \<bar>b\<bar>))"

definition getRemainingTime :: "timer \<Rightarrow> int \<times> int" where
  "getRemainingTime t = (remainingTime t div 60, js_rem (remainingTime t) 60)"

definition getProgress :: "timer \<Rightarrow> real" where
  "getProgress t =
     (if duration t = 0 then 0
      else (real_of_int (duration t - remainingTime t) / real_of_int (duration t)) * 100)"

definition getState :: "timer \<Rightarrow> string option" where
  "getState t = state t"

definition on :: "string \<Rightarrow> callback \<Rightarrow> timer \<Rightarrow> js_error + timer" where
  "on event cb t =
     (case get_prop (callbacks t) event of
        Undefined \<Rightarrow> Inr t
      | Inherited \<Rightarrow> Inl (TypeError ''this.#callbacks[event].push is not a function'')
      | Own cbs \<Rightarrow> Inr (t\<lparr>callbacks := set_prop (callbacks t) event (cbs @ [cb])\<rparr>))"

definition complete_timer :: "timer \<Rightarrow> timer" where
  "complete_timer t =
     (let t1 = setState COMPLETED (clearInterval_if_set t) in
      t1\<lparr>trace := forEach_try ''Error in complete callback:'' CompleteArgs
                     (callbacks_of t1 ''complete'') (trace t1)\<rparr>)"

definition tick :: "timer \<Rightarrow> timer" where
  "tick t =
     (if remainingTime t \<le> 0 then complete_timer t
      else let t1 = t\<lparr>remainingTime := remainingTime t - 1\<rparr> in
        t1\<lparr>trace := forEach_try ''Error in tick callback:''
                       (TickArgs (fst (getRemainingTime t1)) (snd (getRemainingTime t1))
                          (getProgress t1))
                       (callbacks_of t1 ''tick'') (trace t1)\<rparr>)"

text \<open>
  One unit of the clock: the host runs the callback \<open>() => this.#tick()\<close> of every
  interval that is active, skipping one that an earlier callback of the same round
  cleared.
\<close>

definition clock_tick :: "timer \<Rightarrow> timer" where
  "clock_tick t =
     foldl (\<lambda>w i. if i \<in> set (host_intervals w) then tick w else w) t (host_intervals t)"

subsection \<open>Sequences of operations\<close>

datatype operation = Start | Pause | Reset | SetDuration int | On string callback | ClockTick

text \<open>An exception thrown by \<open>on\<close> reaches the caller and leaves the timer as it was.\<close>

fun step :: "operation \<Rightarrow> timer \<Rightarrow> timer" where
  "step Start t = start t"
| "step Pause t = pause t"
| "step Reset t = reset t"
| "step (SetDuration s) t = setDuration s t"
| "step (On e cb) t = (case on e cb t of Inl err \<Rightarrow> t | Inr t' \<Rightarrow> t')"
| "step ClockTick t = clock_tick t"

definition run :: "operation list \<Rightarrow> timer \<Rightarrow> timer" where
  "run ops t = foldl (\<lambda>w x. step x w) t ops"

subsection \<open>Auxiliary notions for stating the properties\<close>

definition timer_ok :: "timer \<Rightarrow> bool" where
  "timer_ok t \<longleftrightarrow>
     map fst (callbacks t) = [''tick'', ''complete'', ''stateChange''] \<and>
     0 < host_next t \<and>
     state t \<in> {IDLE, RUNNING, PAUSED, COMPLETED} \<and>
     (if state t = RUNNING
      then \<exists>i. 0 < i \<and> i < host_next t \<and> intervalId t = Some i \<and> host_intervals t = [i]
      else intervalId t = None \<and> host_intervals t = [])"

definition observed :: "(string \<times> callback) list \<Rightarrow> int \<Rightarrow> timer" where
  "observed regs d = run (map (\<lambda>(e, cb). On e cb) regs) (Timer d)"

definition observers :: "(string \<times> callback) list \<Rightarrow> string \<Rightarrow> callback list" where
  "observers regs e = map snd (filter (\<lambda>(e', cb). e' = e) regs)"

fun is_tick_call :: "event \<Rightarrow> bool" where
  "is_tick_call (Called n (TickArgs m s p)) = True"
| "is_tick_call _ = False"

fun is_complete_call :: "event \<Rightarrow> bool" where
  "is_complete_call (Called n CompleteArgs) = True"
| "is_complete_call _ = False"

definition tick_calls :: "event list \<Rightarrow> event list" where
  "tick_calls tr = filter is_tick_call tr"

definition complete_calls :: "event list \<Rightarrow> event list" where
  "complete_calls tr = filter is_complete_call tr"

definition emit :: "string \<Rightarrow> cb_args \<Rightarrow> callback list \<Rightarrow> event list" where
  "emit l a cbs = forEach_try l a cbs []"

definition progress_at :: "int \<Rightarrow> int \<Rightarrow> real" where
  "progress_at d r = (if d = 0 then 0 else real_of_int (d - r) / real_of_int d * 100)"

definition tick_emit :: "timer \<Rightarrow> int \<Rightarrow> event list" where
  "tick_emit t r =
     emit ''Error in tick callback:''
       (TickArgs (r div 60) (js_rem r 60) (progress_at (duration t) r))
       (callbacks_of t ''tick'')"

definition complete_emit :: "timer \<Rightarrow> event list" where
  "complete_emit t =
     emit ''Error in stateChange callback:'' (StateChangeArgs COMPLETED RUNNING)
       (callbacks_of t ''stateChange'') @
     emit ''Error in complete callback:'' CompleteArgs (callbacks_of t ''complete'')"

definition obs :: "string \<Rightarrow> callback" where
  "obs n = \<lparr>cb_name = n, cb_body = (\<lambda>a. Returns)\<rparr>"

text \<open>The transitions of the state machine as the specification lists them.\<close>

definition spec_transition :: "string option \<Rightarrow> operation \<Rightarrow> string option \<Rightarrow> bool" where
  "spec_transition s x s' \<longleftrightarrow>
     s = IDLE \<and> x = Start \<and> s' = RUNNING \<or>
     s = RUNNING \<and> x = Pause \<and> s' = PAUSED \<or>
     s = PAUSED \<and> x = Start \<and> s' = RUNNING \<or>
     s = RUNNING \<and> x = ClockTick \<and> s' = COMPLETED \<or>
     s \<in> {IDLE, PAUSED, COMPLETED} \<and> x = Reset \<and> s' = IDLE"

text \<open>
  Observer failure isolation: a timer whose callbacks never throw, the calls and the
  \<open>console.error\<close> lines of a trace, and the fields that make up the countdown.
\<close>

definition silenced :: "callback \<Rightarrow> callback" where
  "silenced cb = cb\<lparr>cb_body := (\<lambda>a. Returns)\<rparr>"

definition silence :: "timer \<Rightarrow> timer" where
  "silence t = t\<lparr>callbacks := map (\<lambda>(k, cbs). (k, map silenced cbs)) (callbacks t)\<rparr>"





text \<open>The range of the remaining time that every sequence of operations keeps.\<close>

definition in_range :: "timer \<Rightarrow> bool" where
  "in_range t \<longleftrightarrow>
     0 \<le> remainingTime t \<and> remainingTime t \<le> duration t \<or>
     duration t < 0 \<and> remainingTime t = duration t"

section \<open>The TaskManager (src/js/modules/TaskManager.js)\<close>

subsection \<open>Strings and dates of the host\<close>

text \<open>
  A string is a list of code units; task names use code units below 256. The white space
  that \<open>String.prototype.trim\<close> strips is, among those, tab, line feed, vertical tab, form
  feed, carriage return, space and no-break space.
\<close>

definition is_js_space :: "char \<Rightarrow> bool" where
  "is_js_space c \<longleftrightarrow> (of_char c :: nat) \<in> {9, 10, 11, 12, 13, 32, 160}"

definition trim :: "string \<Rightarrow> string" where
  "trim s = rev (dropWhile is_js_space (rev (dropWhile is_js_space s)))"

text \<open>The comparison of the default \<open>Array.prototype.sort\<close>: strings by code units.\<close>

fun str_less :: "string \<Rightarrow> string \<Rightarrow> bool" where
  "str_less [] [] = False"
| "str_less [] (y # ys) = True"
| "str_less (x # xs) [] = False"
| "str_less (x # xs) (y # ys) =
     (if (of_char x :: nat) < of_char y then True
      else if (of_char y :: nat) < of_char x then False
      else str_less xs ys)"

fun insert_str :: "string \<Rightarrow> string list \<Rightarrow> string list" where
  "insert_str x [] = [x]"
| "insert_str x (y # ys) = (if str_less y x then y # insert_str x ys else x # y # ys)"

definition sort_strings :: "string list \<Rightarrow> string list" where
  "sort_strings xs = foldr insert_str xs []"

text \<open>\<open>[...new Set(xs)]\<close>: the distinct elements, in order of first occurrence.\<close>

definition Set_of :: "'a list \<Rightarrow> 'a list" where
  "Set_of xs = foldl (\<lambda>acc x. if x \<in> set acc then acc else acc @ [x]) [] xs"

text \<open>
  A \<open>Date\<close> is its time value, milliseconds since 1970-01-01T00:00 UTC; the local time zone
  is UTC, so a local day is 86400000 ms and begins at a multiple of it. The civil date of
  a day number and back (proleptic Gregorian calendar, months 1 to 12).
\<close>

definition msPerDay :: int where
  "msPerDay = 1000 * 60 * 60 * 24"

text \<open>From the day of the era to the year of the era, the day of the year and the month.\<close>

definition civil_of_month :: "int \<Rightarrow> int \<Rightarrow> int \<Rightarrow> int \<times> int \<times> int" where
  "civil_of_month y m d = (if m \<le> 2 then y + 1 else y, m, d)"

definition civil_of_mp :: "int \<Rightarrow> int \<Rightarrow> int \<Rightarrow> int \<times> int \<times> int" where
  "civil_of_mp y doy mp =
     civil_of_month y (if mp < 10 then mp + 3 else mp - 9) (doy - (153 * mp + 2) div 5 + 1)"

definition civil_of_doy :: "int \<Rightarrow> int \<Rightarrow> int \<times> int \<times> int" where
  "civil_of_doy y doy = civil_of_mp y doy ((5 * doy + 2) div 153)"

definition civil_of_yoe :: "int \<Rightarrow> int \<Rightarrow> int \<Rightarrow> int \<times> int \<times> int" where
  "civil_of_yoe era doe yoe =
     civil_of_doy (yoe + era * 400) (doe - (365 * yoe + yoe div 4 - yoe div 100))"

definition civil_of_doe :: "int \<Rightarrow> int \<Rightarrow> int \<times> int \<times> int" where
  "civil_of_doe era doe =
     civil_of_yoe era doe ((doe - doe div 1460 + doe div 36524 - doe div 146096) div 365)"

definition civil_of_shifted :: "int \<Rightarrow> int \<times> int \<times> int" where
  "civil_of_shifted z = civil_of_doe (z div 146097) (z mod 146097)"

definition civil_from_days :: "int \<Rightarrow> int \<times> int \<times> int" where
  "civil_from_days z = civil_of_shifted (z + 719468)"

definition days_of_year_day :: "int \<Rightarrow> int \<Rightarrow> int" where
  "days_of_year_day y doy =
     (y div 400) * 146097 +
     ((y mod 400) * 365 + (y mod 400) div 4 - (y mod 400) div 100 + doy) - 719468"

definition days_from_civil :: "int \<Rightarrow> int \<Rightarrow> int \<Rightarrow> int" where
  "days_from_civil y m d =
     days_of_year_day (if m \<le> 2 then y - 1 else y)
       ((153 * (if m > 2 then m - 3 else m + 9) + 2) div 5 + d - 1)"

definition day_names :: "string list" where
  "day_names = [''Sun'', ''Mon'', ''Tue'', ''Wed'', ''Thu'', ''Fri'', ''Sat'']"

definition month_names :: "string list" where
  "month_names =
     [''Jan'', ''Feb'', ''Mar'', ''Apr'', ''May'', ''Jun'',
      ''Jul'', ''Aug'', ''Sep'', ''Oct'', ''Nov'', ''Dec'']"

definition digit :: "int \<Rightarrow> char" where
  "digit n = ''0123456789'' ! nat (n mod 10)"

definition pad2 :: "int \<Rightarrow> string" where
  "pad2 n = [digit (n div 10), digit n]"

definition pad4 :: "int \<Rightarrow> string" where
  "pad4 n = [digit (n div 1000), digit (n div 100), digit (n div 10), digit n]"

text \<open>
  \<open>Date.prototype.toDateString\<close>, for years 0 to 9999: week day, month, day of the month
  on two digits, year on four, as in \<open>Tue Jan 02 2024\<close>. 1970-01-01 was a Thursday.
\<close>

definition dateString_of_day :: "int \<Rightarrow> string" where
  "dateString_of_day day =
     (case civil_from_days day of
        (y, m, d) \<Rightarrow>
          day_names ! nat ((day + 4) mod 7) @ '' '' @ month_names ! nat (m - 1) @ '' '' @
          pad2 d @ '' '' @ pad4 y)"

definition toDateString :: "int \<Rightarrow> string" where
  "toDateString t = dateString_of_day (t div msPerDay)"

text \<open>
  \<open>new Date(s)\<close> for a string in the format of \<open>toDateString\<close>: midnight, local time, of
  that date. Any other string is not parsed here (\<open>None\<close>, an invalid date).
\<close>

fun split_spaces :: "string \<Rightarrow> string list" where
  "split_spaces [] = [[]]"
| "split_spaces (c # cs) =
     (if c = CHR '' '' then [] # split_spaces cs
      else (case split_spaces cs of [] \<Rightarrow> [[c]] | w # ws \<Rightarrow> (c # w) # ws))"

fun index_of :: "'a \<Rightarrow> 'a list \<Rightarrow> nat option" where
  "index_of x [] = None"
| "index_of x (y # ys) = (if x = y then Some 0 else map_option Suc (index_of x ys))"

definition digit_val :: "char \<Rightarrow> int option" where
  "digit_val c = map_option int (index_of c ''0123456789'')"

fun number_of :: "string \<Rightarrow> int \<Rightarrow> int option" where
  "number_of [] acc = Some acc"
| "number_of (c # cs) acc =
     (case digit_val c of None \<Rightarrow> None | Some v \<Rightarrow> number_of cs (10 * acc + v))"

definition Date_parse :: "string \<Rightarrow> int option" where
  "Date_parse s =
     (case split_spaces s of
        [w, m, d, y] \<Rightarrow>
          (case (index_of w day_names, index_of m month_names, number_of d 0, number_of y 0) of
             (Some wi, Some mi, Some dd, Some yy) \<Rightarrow>
               if d = [] \<or> y = [] then None
               else Some (days_from_civil yy (int mi + 1) dd * msPerDay)
           | _ \<Rightarrow> None)
      | _ \<Rightarrow> None)"

subsection \<open>Tasks and the manager\<close>

text \<open>
  The two fields of the class that the methods read and write. The storage object is
  only called inside \<open>try\<close>/\<open>catch\<close> blocks whose result is dropped, so it has no part in
  what the methods below return or leave in the fields. \<open>Date.now()\<close>, \<open>new Date()\<close> and
  the random suffix of a task id are inputs of the method that reads them. A duration is a
  whole number of minutes.
\<close>

record task =
  task_name :: string
  startedAt :: int
  task_id :: string

record completed_task =
  ct_id :: string
  ct_name :: string
  ct_duration :: int
  completedAt :: int
  sessionCount :: nat

record task_manager =
  currentTask :: "task option"
  completedTasks :: "completed_task list"

definition TaskManager :: task_manager where
  "TaskManager = \<lparr>currentTask = None, completedTasks = []\<rparr>"

text \<open>The decimal digits of a time value (\<open>Date.now()\<close> is not negative).\<close>

function decimal :: "int \<Rightarrow> string" where
  "decimal n = (if n < 10 then [digit n] else decimal (n div 10) @ [digit n])"
  by pat_completeness auto
termination
  by (relation "measure nat") auto

definition generateTaskId :: "int \<Rightarrow> string \<Rightarrow> string" where
  "generateTaskId now rnd = ''task_'' @ decimal now @ ''_'' @ rnd"

definition validateTaskName :: "string \<Rightarrow> bool" where
  "validateTaskName name \<longleftrightarrow> name \<noteq> [] \<and> length (trim name) > 0"

definition setCurrentTask :: "string \<Rightarrow> int \<Rightarrow> string \<Rightarrow> task_manager \<Rightarrow> js_error + task_manager" where
  "setCurrentTask taskName now rnd tm =
     (if \<not> validateTaskName taskName then Inl (Error ''Task name must be a non-empty string'')
      else Inr (tm\<lparr>currentTask :=
                  Some \<lparr>task_name = trim taskName, startedAt = now,
                        task_id = generateTaskId now rnd\<rparr>\<rparr>))"

definition getCurrentTask :: "task_manager \<Rightarrow> task option" where
  "getCurrentTask tm = currentTask tm"

definition clearCurrentTask :: "task_manager \<Rightarrow> task_manager" where
  "clearCurrentTask tm = tm\<lparr>currentTask := None\<rparr>"

definition calculateSessionsForTask :: "task_manager \<Rightarrow> string \<Rightarrow> nat" where
  "calculateSessionsForTask tm taskName =
     length (filter (\<lambda>t. ct_name t = taskName) (completedTasks tm))"

definition completeTask ::
  "string \<Rightarrow> int \<Rightarrow> int \<Rightarrow> string \<Rightarrow> task_manager \<Rightarrow> js_error + task_manager \<times> completed_task" where
  "completeTask taskName dur now rnd tm =
     (if \<not> validateTaskName taskName then Inl (Error ''Task name must be a non-empty string'')
      else if dur \<le> 0 then Inl (Error ''Duration must be a positive number'')
      else
        let taskNameTrimmed = trim taskName;
            count = calculateSessionsForTask tm taskNameTrimmed;
            completedTask =
              \<lparr>ct_id = generateTaskId now rnd, ct_name = taskNameTrimmed, ct_duration = dur,
               completedAt = now, sessionCount = count + 1\<rparr>
        in Inr (tm\<lparr>completedTasks := completedTasks tm @ [completedTask]\<rparr>, completedTask))"

definition completeCurrentTask ::
  "int \<Rightarrow> int \<Rightarrow> string \<Rightarrow> task_manager \<Rightarrow> js_error + task_manager \<times> completed_task" where
  "completeCurrentTask dur now rnd tm =
     (case currentTask tm of
        None \<Rightarrow> Inl (Error ''No active task to complete'')
      | Some cur \<Rightarrow>
          if dur \<le> 0 then Inl (Error ''Duration must be a positive number'')
          else (case completeTask (task_name cur) dur now rnd tm of
                  Inl e \<Rightarrow> Inl e
                | Inr (tm', completedTask) \<Rightarrow> Inr (clearCurrentTask tm', completedTask)))"

subsection \<open>Streaks\<close>

record streak_info =
  currentStreak :: nat
  longestStreak :: nat
  lastActiveDate :: "int option"

text \<open>
  \<open>(nextDate - currentDate) / (1000 * 60 * 60 * 24) === 1\<close>: the difference of two time
  values is one day exactly; with an invalid date the difference is NaN and the test is
  false.
\<close>

definition dayDiff_is_1 :: "string \<Rightarrow> string \<Rightarrow> bool" where
  "dayDiff_is_1 cur nxt =
     (case (Date_parse cur, Date_parse nxt) of
        (Some c, Some n) \<Rightarrow> n - c = msPerDay
      | _ \<Rightarrow> False)"

text \<open>
  The \<open>for\<close> loop over \<open>dates\<close>, from index \<open>i\<close> on, as a recursion on the dates that are
  left; the pair is \<open>(longestStreak, tempStreak)\<close>.
\<close>

fun streak_loop :: "string list \<Rightarrow> nat \<times> nat \<Rightarrow> nat \<times> nat" where
  "streak_loop [] (longest, temp) = (longest, temp)"
| "streak_loop [d] (longest, temp) =
     (let temp' = temp + 1 in (if temp' > longest then temp' else longest, temp'))"
| "streak_loop (d # d' # ds) (longest, temp) =
     (if dayDiff_is_1 d d' then streak_loop (d' # ds) (longest, temp + 1)
      else streak_loop (d' # ds) (if temp > longest then temp else longest, 0))"

definition getStreakInfo :: "int \<Rightarrow> task_manager \<Rightarrow> streak_info" where
  "getStreakInfo today tm =
     (if length (completedTasks tm) = 0
      then \<lparr>currentStreak = 0, longestStreak = 0, lastActiveDate = None\<rparr>
      else
        let dates = sort_strings (Set_of (map (\<lambda>task. toDateString (completedAt task))
                                            (completedTasks tm)));
            (longest, temp) = streak_loop dates (0, 0);
            lastDate = Date_parse (last dates);
            recent = (case lastDate of None \<Rightarrow> False | Some l \<Rightarrow> today - l \<le> msPerDay)
        in \<lparr>currentStreak = (if recent then temp else 0), longestStreak = longest,
            lastActiveDate = lastDate\<rparr>)"

subsection \<open>Sequences of calls on a manager\<close>

datatype task_op =
    SetCurrentTask string int string
  | CompleteCurrentTask int int string
  | ClearCurrentTask
  | CompleteTask string int int string

text \<open>A call that throws leaves the manager as it was.\<close>

fun task_step :: "task_op \<Rightarrow> task_manager \<Rightarrow> task_manager" where
  "task_step (SetCurrentTask n now rnd) tm =
     (case setCurrentTask n now rnd tm of Inl e \<Rightarrow> tm | Inr tm' \<Rightarrow> tm')"
| "task_step (CompleteCurrentTask d now rnd) tm =
     (case completeCurrentTask d now rnd tm of Inl e \<Rightarrow> tm | Inr (tm', r) \<Rightarrow> tm')"
| "task_step ClearCurrentTask tm = clearCurrentTask tm"
| "task_step (CompleteTask n d now rnd) tm =
     (case completeTask n d now rnd tm of Inl e \<Rightarrow> tm | Inr (tm', r) \<Rightarrow> tm')"

definition task_run :: "task_op list \<Rightarrow> task_manager \<Rightarrow> task_manager" where
  "task_run ops tm = foldl (\<lambda>w x. task_step x w) tm ops"

text \<open>
  What every sequence of calls keeps: the name of the current task passed the validation
  and is trimmed.
  A manager with the task \<open>Write report\<close> set, for the examples.
\<close>

definition task_inv :: "task_manager \<Rightarrow> bool" where
  "task_inv tm \<longleftrightarrow>
     (case currentTask tm of
        None \<Rightarrow> True
      | Some c \<Rightarrow> validateTaskName (task_name c) \<and> trim (task_name c) = task_name c)"

definition report_set :: task_manager where
  "report_set = task_run [SetCurrentTask ''Write report'' 1000 ''x''] TaskManager"

text \<open>
  A history for the streak scenario: one completion at 09:00 on each of the days
  \<open>D\<close>, \<open>D + 1\<close>, \<open>D + 2\<close> and \<open>D + 4\<close> (day numbers since 1970-01-01).
\<close>

definition four_days :: "int \<Rightarrow> task_manager" where
  "four_days D = task_run
     [CompleteTask ''Write report'' 25 (D * msPerDay + 9 * 3600000) ''a'',
      CompleteTask ''Write report'' 25 ((D + 1) * msPerDay + 9 * 3600000) ''b'',
      CompleteTask ''Write report'' 25 ((D + 2) * msPerDay + 9 * 3600000) ''c'',
      CompleteTask ''Write report'' 25 ((D + 4) * msPerDay + 9 * 3600000) ''d''] TaskManager"

section \<open>The session coordinator (src/js/main.js)\<close>

text \<open>
  The fields of \<open>App\<close> that the completion handler reads and writes, and a log of the
  calls it makes on its collaborators (\<open>this.audio\<close>, \<open>this.ui\<close>, \<open>this.storage\<close>,
  \<open>this.taskManager\<close>). What a collaborator does inside a call is not part of \<open>App\<close>; all
  the handler sees is whether the call returns or throws, which the host gives: a call of
  a method that the object does not have throws a TypeError. The handlers are \<open>async\<close>
  functions; each is run here to its end, and the result says whether it returned
  (\<open>True\<close>) or threw out of its own \<open>catch\<close> block.
\<close>

datatype collaborator = AUDIO | UI | STORAGE | TASKS

type_synonym host = "collaborator \<Rightarrow> string \<Rightarrow> bool"

record app =
  app_currentTask :: "string option"
  isBreakMode :: bool
  app_sessionCount :: int
  app_log :: "(collaborator \<times> string) list"

definition call :: "host \<Rightarrow> collaborator \<Rightarrow> string \<Rightarrow> app \<Rightarrow> bool \<times> app" where
  "call h c m a = (h c m, a\<lparr>app_log := app_log a @ [(c, m)]\<rparr>)"

text \<open>\<open>handleError(message, error)\<close>: \<open>console.error\<close>, then \<open>this.ui.showNotification\<close>.\<close>

definition handleError :: "host \<Rightarrow> app \<Rightarrow> bool \<times> app" where
  "handleError h a = call h UI ''showNotification'' a"










definition storage_calls :: "app \<Rightarrow> (collaborator \<times> string) list" where
  "storage_calls a = filter (\<lambda>(c, m). c = STORAGE) (app_log a)"



section \<open>Properties of the Timer\<close>

lemma states_simps:
  "IDLE = Some ''idle''" "RUNNING = Some ''running''" "PAUSED = Some ''paused''"
  "COMPLETED = None"
  by (simp_all add: IDLE_def RUNNING_def PAUSED_def COMPLETED_def TIMER_STATES_def)

lemma states_distinct:
  "IDLE \<noteq> RUNNING" "IDLE \<noteq> PAUSED" "IDLE \<noteq> COMPLETED" "RUNNING \<noteq> PAUSED"
  "RUNNING \<noteq> COMPLETED" "PAUSED \<noteq> COMPLETED" "RUNNING \<noteq> IDLE" "PAUSED \<noteq> IDLE"
  "COMPLETED \<noteq> IDLE" "PAUSED \<noteq> RUNNING" "COMPLETED \<noteq> RUNNING" "COMPLETED \<noteq> PAUSED"
  by (simp_all add: states_simps)

lemma setState_fields [simp]:
  "state (setState s t) = s"
  "duration (setState s t) = duration t"
  "remainingTime (setState s t) = remainingTime t"
  "intervalId (setState s t) = intervalId t"
  "callbacks (setState s t) = callbacks t"
  "host_intervals (setState s t) = host_intervals t"
  "host_next (setState s t) = host_next t"
  by (simp_all add: setState_def Let_def)

lemma setState_same [simp]: "state t = s \<Longrightarrow> setState s t = t"
  by (simp add: setState_def)

lemma clearInterval_if_set_fields [simp]:
  "state (clearInterval_if_set t) = state t"
  "duration (clearInterval_if_set t) = duration t"
  "remainingTime (clearInterval_if_set t) = remainingTime t"
  "callbacks (clearInterval_if_set t) = callbacks t"
  "host_next (clearInterval_if_set t) = host_next t"
  "trace (clearInterval_if_set t) = trace t"
  by (simp_all add: clearInterval_if_set_def split: option.splits)

lemma clearInterval_if_set_None [simp]:
  "intervalId t = None \<Longrightarrow> clearInterval_if_set t = t"
  by (simp add: clearInterval_if_set_def)

text \<open>
  C8. \<open>reset()\<close> is idempotent: from any timer whatever, the first call leaves the state
  Idle with the remaining time equal to the duration, and a second call changes nothing
  at all (no field, no interval of the host, no further callback).
\<close>

theorem reset_idempotent:
  "state (reset t) = IDLE \<and> remainingTime (reset t) = duration (reset t) \<and>
   state (reset (reset t)) = IDLE \<and>
   remainingTime (reset (reset t)) = duration (reset (reset t)) \<and>
   duration (reset (reset t)) = duration t \<and>
   reset (reset t) = reset t"
proof -
  have a: "state (reset t) = IDLE" "remainingTime (reset t) = duration t"
    "duration (reset t) = duration t"
    by (simp_all add: reset_def)
  have b: "intervalId (reset t) = None \<or> intervalId (reset t) = Some 0"
    by (auto simp: reset_def clearInterval_if_set_def split: option.splits)
  have c: "(reset t)\<lparr>remainingTime := duration (reset t)\<rparr> = reset t"
    using a by simp
  have d: "clearInterval_if_set (reset t) = reset t"
    using b by (auto simp: clearInterval_if_set_def)
  have "reset (reset t) = reset t"
    unfolding reset_def [of "reset t"] c using a(1) d by simp
  with a show ?thesis by simp
qed

lemma forEach_try_append: "forEach_try l a cbs tr = tr @ forEach_try l a cbs []"
proof (induction cbs arbitrary: tr)
  case Nil
  show ?case by simp
next
  case (Cons cb cbs)
  show ?case
    by (cases "cb_body cb a")
       (simp_all add: Cons.IH [of "tr @ _"] Cons.IH [of "[_]"] Cons.IH [of "[_, _]"])
qed

lemma timer_ok_Timer: "timer_ok (Timer d)"
  by (simp add: timer_ok_def Timer_def states_distinct)

lemma timer_ok_start: "timer_ok t \<Longrightarrow> timer_ok (start t)"
  by (auto simp: timer_ok_def start_def setInterval_def states_distinct)

lemma timer_ok_pause: "timer_ok t \<Longrightarrow> timer_ok (pause t)"
  by (auto simp: timer_ok_def pause_def clearInterval_if_set_def states_distinct)

lemma timer_ok_reset: "timer_ok t \<Longrightarrow> timer_ok (reset t)"
  by (auto simp: timer_ok_def reset_def clearInterval_if_set_def states_distinct split: if_splits)

lemma timer_ok_setDuration: "timer_ok t \<Longrightarrow> timer_ok (setDuration s t)"
  by (auto simp: timer_ok_def setDuration_def reset_def clearInterval_if_set_def states_distinct split: if_splits)

lemma timer_ok_complete: "timer_ok t \<Longrightarrow> timer_ok (complete_timer t)"
  by (auto simp: timer_ok_def complete_timer_def Let_def clearInterval_if_set_def states_distinct split: if_splits)

lemma timer_ok_tick: "timer_ok t \<Longrightarrow> timer_ok (tick t)"
  using timer_ok_complete [of t]
  by (auto simp: timer_ok_def tick_def Let_def)

lemma clock_tick_running: "timer_ok t \<Longrightarrow> state t = RUNNING \<Longrightarrow> clock_tick t = tick t"
  by (auto simp: timer_ok_def clock_tick_def)

lemma clock_tick_not_running: "timer_ok t \<Longrightarrow> state t \<noteq> RUNNING \<Longrightarrow> clock_tick t = t"
  by (auto simp: timer_ok_def clock_tick_def)

lemma timer_ok_clock_tick: "timer_ok t \<Longrightarrow> timer_ok (clock_tick t)"
  by (cases "state t = RUNNING") (simp_all add: clock_tick_running clock_tick_not_running timer_ok_tick)

lemma map_fst_set_prop: "map fst (set_prop obj k v) = map fst obj"
  by (induction obj) (auto simp: set_prop_def)

lemma timer_ok_on: "timer_ok t \<Longrightarrow> on e cb t = Inr t' \<Longrightarrow> timer_ok t'"
  by (auto simp: timer_ok_def on_def map_fst_set_prop split: lookup.splits)

lemma timer_ok_step: "timer_ok t \<Longrightarrow> timer_ok (step x t)"
  by (cases x) (auto simp: timer_ok_start timer_ok_pause timer_ok_reset timer_ok_setDuration timer_ok_clock_tick timer_ok_on split: sum.splits)

lemma run_snoc: "run (ops @ [x]) t = step x (run ops t)"
  by (simp add: run_def)

lemma timer_ok_run: "timer_ok t \<Longrightarrow> timer_ok (run ops t)"
  by (induction ops rule: rev_induct) (simp_all add: run_def timer_ok_step)

lemma forEach_try_emit: "forEach_try l a cbs tr = tr @ emit l a cbs"
  unfolding emit_def by (rule forEach_try_append)

lemma run_on_regs:
  "callbacks t = [(''tick'', a), (''complete'', b), (''stateChange'', c)] \<Longrightarrow>
   run (map (\<lambda>(e, cb). On e cb) regs) t =
     t\<lparr>callbacks := [(''tick'', a @ observers regs ''tick''),
                     (''complete'', b @ observers regs ''complete''),
                     (''stateChange'', c @ observers regs ''stateChange'')]\<rparr>"
proof (induction regs arbitrary: t a b c)
  case Nil
  then show ?case by (simp add: run_def observers_def)
next
  case (Cons r regs)
  obtain e cb where r: "r = (e, cb)" by (cases r)
  have run_Cons: "run (map (\<lambda>(e, cb). On e cb) (r # regs)) t =
      run (map (\<lambda>(e, cb). On e cb) regs) (step (On e cb) t)"
    by (simp add: run_def r)
  consider (tick) "e = ''tick''" | (complete) "e = ''complete''"
    | (stateChange) "e = ''stateChange''"
    | (other) "e \<noteq> ''tick''" "e \<noteq> ''complete''" "e \<noteq> ''stateChange''"
    by blast
  then show ?case
  proof cases
    case tick
    have s: "step (On e cb) t = t\<lparr>callbacks := [(''tick'', a @ [cb]), (''complete'', b), (''stateChange'', c)]\<rparr>"
      using Cons.prems tick by (simp add: on_def get_prop_def set_prop_def)
    show ?thesis
      unfolding run_Cons s
      by (subst Cons.IH [where a = "a @ [cb]" and b = b and c = c])
         (simp_all add: observers_def r tick)
  next
    case complete
    have s: "step (On e cb) t = t\<lparr>callbacks := [(''tick'', a), (''complete'', b @ [cb]), (''stateChange'', c)]\<rparr>"
      using Cons.prems complete by (simp add: on_def get_prop_def set_prop_def)
    show ?thesis
      unfolding run_Cons s
      by (subst Cons.IH [where a = a and b = "b @ [cb]" and c = c])
         (simp_all add: observers_def r complete)
  next
    case stateChange
    have s: "step (On e cb) t = t\<lparr>callbacks := [(''tick'', a), (''complete'', b), (''stateChange'', c @ [cb])]\<rparr>"
      using Cons.prems stateChange by (simp add: on_def get_prop_def set_prop_def)
    show ?thesis
      unfolding run_Cons s
      by (subst Cons.IH [where a = a and b = b and c = "c @ [cb]"])
         (simp_all add: observers_def r stateChange)
  next
    case other
    have s: "step (On e cb) t = t"
      using Cons.prems other by (simp add: on_def get_prop_def)
    show ?thesis
      unfolding run_Cons s
      by (subst Cons.IH [where a = a and b = b and c = c])
         (simp_all add: observers_def r other Cons.prems)
  qed
qed

lemma observed_eq:
  "observed regs d =
     (Timer d)\<lparr>callbacks := [(''tick'', observers regs ''tick''),
                     (''complete'', observers regs ''complete''),
                     (''stateChange'', observers regs ''stateChange'')]\<rparr>"
  unfolding observed_def
  by (subst run_on_regs [where a = "[]" and b = "[]" and c = "[]"]) (simp_all add: Timer_def)

lemma timer_ok_observed: "timer_ok (observed regs d)"
  unfolding observed_def by (rule timer_ok_run [OF timer_ok_Timer])

lemma tick_pos:
  "0 < remainingTime t \<Longrightarrow>
   tick t = t\<lparr>remainingTime := remainingTime t - 1,
              trace := trace t @ tick_emit t (remainingTime t - 1)\<rparr>"
  by (simp add: tick_def Let_def tick_emit_def forEach_try_emit getRemainingTime_def
      getProgress_def progress_at_def callbacks_of_def)

lemma clock_tick_expired:
  assumes "timer_ok t" "state t = RUNNING" "remainingTime t \<le> 0"
  shows "clock_tick t =
     t\<lparr>state := COMPLETED, intervalId := None, host_intervals := [],
       trace := trace t @ complete_emit t\<rparr>"
proof -
  from assms(1,2) obtain i where i: "0 < i" "intervalId t = Some i" "host_intervals t = [i]"
    by (auto simp: timer_ok_def)
  have "clock_tick t = complete_timer t"
    using assms by (simp add: clock_tick_running tick_def)
  also have "\<dots> = t\<lparr>state := COMPLETED, intervalId := None, host_intervals := [],
       trace := trace t @ complete_emit t\<rparr>"
    using i assms(2)
    by (simp add: complete_timer_def Let_def clearInterval_if_set_def setState_def states_distinct
        forEach_try_emit [of _ _ _ "trace t"] forEach_try_emit [of _ _ _ "_ @ _"]
        complete_emit_def callbacks_of_def)
  finally show ?thesis .
qed

lemma timer_ok_funpow: "timer_ok t \<Longrightarrow> timer_ok ((clock_tick ^^ k) t)"
  by (induction k) (simp_all add: timer_ok_clock_tick)

lemma ticks_running:
  assumes "timer_ok t" "state t = RUNNING"
  shows "int k \<le> remainingTime t \<Longrightarrow>
     (clock_tick ^^ k) t =
       t\<lparr>remainingTime := remainingTime t - int k,
         trace := trace t @ concat (map (\<lambda>j. tick_emit t (remainingTime t - int j)) [1..<Suc k])\<rparr>"
proof (induction k)
  case 0
  show ?case by simp
next
  case (Suc k)
  let ?t' = "(clock_tick ^^ k) t"
  have eq: "?t' = t\<lparr>remainingTime := remainingTime t - int k,
         trace := trace t @ concat (map (\<lambda>j. tick_emit t (remainingTime t - int j)) [1..<Suc k])\<rparr>"
    using Suc by simp
  have run': "state ?t' = RUNNING" "0 < remainingTime ?t'"
    using Suc.prems assms(2) by (simp_all add: eq)
  have te: "tick_emit ?t' r = tick_emit t r" for r
    by (simp add: eq tick_emit_def callbacks_of_def)
  have "(clock_tick ^^ Suc k) t = tick ?t'"
    using timer_ok_funpow [OF assms(1), of k] run'(1) by (simp add: clock_tick_running)
  also have "\<dots> = ?t'\<lparr>remainingTime := remainingTime ?t' - 1,
              trace := trace ?t' @ tick_emit t (remainingTime ?t' - 1)\<rparr>"
    using tick_pos [OF run'(2)] by (simp add: te)
  also have "\<dots> = t\<lparr>remainingTime := remainingTime t - int (Suc k),
         trace := trace t @ concat (map (\<lambda>j. tick_emit t (remainingTime t - int j)) [1..<Suc (Suc k)])\<rparr>"
    by (simp add: eq algebra_simps)
  finally show ?case .
qed

lemma tick_calls_emit [simp]:
  "tick_calls (emit l (TickArgs m s p) cbs) = map (\<lambda>cb. Called (cb_name cb) (TickArgs m s p)) cbs"
  "tick_calls (emit l CompleteArgs cbs) = []"
  "tick_calls (emit l (StateChangeArgs a b) cbs) = []"
  unfolding emit_def tick_calls_def
  by (induction cbs)
     (simp_all add: forEach_try_append [of _ _ _ "[_]"] forEach_try_append [of _ _ _ "[_, _]"]
        split: outcome.splits)

lemma complete_calls_emit [simp]:
  "complete_calls (emit l (TickArgs m s p) cbs) = []"
  "complete_calls (emit l CompleteArgs cbs) = map (\<lambda>cb. Called (cb_name cb) CompleteArgs) cbs"
  "complete_calls (emit l (StateChangeArgs a b) cbs) = []"
  unfolding emit_def complete_calls_def
  by (induction cbs)
     (simp_all add: forEach_try_append [of _ _ _ "[_]"] forEach_try_append [of _ _ _ "[_, _]"]
        split: outcome.splits)

lemma calls_append [simp]:
  "tick_calls (xs @ ys) = tick_calls xs @ tick_calls ys"
  "complete_calls (xs @ ys) = complete_calls xs @ complete_calls ys"
  "tick_calls [] = []" "complete_calls [] = []"
  by (simp_all add: tick_calls_def complete_calls_def)

lemma tick_calls_concat: "tick_calls (concat xss) = concat (map tick_calls xss)"
  by (induction xss) simp_all

lemma complete_calls_concat: "complete_calls (concat xss) = concat (map complete_calls xss)"
  by (induction xss) simp_all

lemma start_observed:
  "start (observed regs d) =
     (observed regs d)\<lparr>state := RUNNING, intervalId := Some 1, host_intervals := [1],
        host_next := 2,
        trace := emit ''Error in stateChange callback:'' (StateChangeArgs RUNNING IDLE)
                   (observers regs ''stateChange'')\<rparr>"
  by (simp add: observed_eq start_def Timer_def setState_def setInterval_def states_distinct
      forEach_try_emit callbacks_of_def)

lemma started_props:
  "timer_ok (start (observed regs d))"
  "state (start (observed regs d)) = RUNNING"
  "remainingTime (start (observed regs d)) = d"
  "duration (start (observed regs d)) = d"
  "callbacks_of (start (observed regs d)) e =
     (if e \<in> {''tick'', ''complete'', ''stateChange''} then observers regs e else [])"
  "tick_calls (trace (start (observed regs d))) = []"
  "complete_calls (trace (start (observed regs d))) = []"
       apply (rule timer_ok_start [OF timer_ok_observed])
      apply (simp_all add: start_observed)
      apply (simp_all add: observed_eq Timer_def callbacks_of_def)
  done

lemma js_rem_nonneg: "0 \<le> a \<Longrightarrow> js_rem a 60 = a mod 60"
  by (simp add: js_rem_def)

lemma countdown_after_ticks:
  fixes n :: nat and regs :: "(string \<times> callback) list"
  assumes "k \<le> n"
  defines "t0 \<equiv> start (observed regs (int n))"
  shows "state ((clock_tick ^^ k) t0) = RUNNING"
    and "remainingTime ((clock_tick ^^ k) t0) = int n - int k"
    and "duration ((clock_tick ^^ k) t0) = int n"
    and "tick_calls (trace ((clock_tick ^^ k) t0)) =
           concat (map (\<lambda>j. map (\<lambda>cb. Called (cb_name cb)
              (TickArgs ((int n - int j) div 60) ((int n - int j) mod 60)
                 (real j / real n * 100))) (observers regs ''tick'')) [1..<Suc k])"
    and "complete_calls (trace ((clock_tick ^^ k) t0)) = []"
    and "timer_ok ((clock_tick ^^ k) t0)"
    and "callbacks_of ((clock_tick ^^ k) t0) ''complete'' = observers regs ''complete''"
proof -
  have le: "int k \<le> remainingTime t0"
    using assms(1) by (simp add: t0_def started_props)
  note eq = ticks_running [OF started_props(1,2) , of k regs "int n", folded t0_def, OF le]
  have emit_j: "tick_calls (tick_emit t0 (remainingTime t0 - int j)) =
      map (\<lambda>cb. Called (cb_name cb)
              (TickArgs ((int n - int j) div 60) ((int n - int j) mod 60)
                 (real j / real n * 100))) (observers regs ''tick'')"
    if "j \<in> set [1..<Suc k]" for j
  proof -
    from that assms(1) have j: "1 \<le> j" "j \<le> n" by auto
    then have "n \<noteq> 0" by auto
    then show ?thesis
      using j by (simp add: tick_emit_def t0_def started_props js_rem_nonneg progress_at_def)
  qed
  show "state ((clock_tick ^^ k) t0) = RUNNING"
    by (simp add: eq) (simp add: t0_def started_props)
  show "remainingTime ((clock_tick ^^ k) t0) = int n - int k"
    by (simp add: eq) (simp add: t0_def started_props)
  show "duration ((clock_tick ^^ k) t0) = int n"
    by (simp add: eq) (simp add: t0_def started_props)
  show "tick_calls (trace ((clock_tick ^^ k) t0)) =
           concat (map (\<lambda>j. map (\<lambda>cb. Called (cb_name cb)
              (TickArgs ((int n - int j) div 60) ((int n - int j) mod 60)
                 (real j / real n * 100))) (observers regs ''tick'')) [1..<Suc k])"
  proof -
    have m: "map (\<lambda>j. tick_calls (tick_emit t0 (remainingTime t0 - int j))) [1..<Suc k] =
        map (\<lambda>j. map (\<lambda>cb. Called (cb_name cb)
              (TickArgs ((int n - int j) div 60) ((int n - int j) mod 60)
                 (real j / real n * 100))) (observers regs ''tick'')) [1..<Suc k]"
      by (rule map_cong [OF refl]) (rule emit_j)
    have t0: "tick_calls (trace t0) = []"
      by (simp add: t0_def started_props)
    have tr: "trace ((clock_tick ^^ k) t0) =
        trace t0 @ concat (map (\<lambda>j. tick_emit t0 (remainingTime t0 - int j)) [1..<Suc k])"
      by (simp add: eq)
    show ?thesis
      by (simp only: tr calls_append tick_calls_concat map_map o_def m t0 append_Nil)
  qed
  show "complete_calls (trace ((clock_tick ^^ k) t0)) = []"
    by (simp add: eq complete_calls_concat tick_emit_def) (simp add: t0_def started_props)
  show "timer_ok ((clock_tick ^^ k) t0)"
    unfolding t0_def by (rule timer_ok_funpow [OF started_props(1)])
  show "callbacks_of ((clock_tick ^^ k) t0) ''complete'' = observers regs ''complete''"
  proof -
    have "callbacks_of ((clock_tick ^^ k) t0) ''complete'' = callbacks_of t0 ''complete''"
      by (simp add: eq callbacks_of_def)
    then show ?thesis by (simp add: t0_def started_props)
  qed
qed

lemma countdown_expiry:
  fixes n :: nat and regs :: "(string \<times> callback) list"
  defines "tn \<equiv> (clock_tick ^^ n) (start (observed regs (int n)))"
  shows "state (clock_tick tn) = COMPLETED"
    and "remainingTime (clock_tick tn) = 0"
    and "tick_calls (trace (clock_tick tn)) = tick_calls (trace tn)"
    and "complete_calls (trace (clock_tick tn)) =
           map (\<lambda>cb. Called (cb_name cb) CompleteArgs) (observers regs ''complete'')"
    and "host_intervals (clock_tick tn) = []"
    and "intervalId (clock_tick tn) = None"
    and "(clock_tick ^^ m) (clock_tick tn) = clock_tick tn"
proof -
  note at_n = countdown_after_ticks [of n n regs, folded tn_def, OF order_refl]
  have le: "remainingTime tn \<le> 0" by (simp add: at_n)
  note eq = clock_tick_expired [OF at_n(6) at_n(1) le]
  show "state (clock_tick tn) = COMPLETED" by (simp add: eq)
  show "remainingTime (clock_tick tn) = 0" by (simp add: eq at_n)
  show "tick_calls (trace (clock_tick tn)) = tick_calls (trace tn)"
    by (simp add: eq complete_emit_def)
  show "complete_calls (trace (clock_tick tn)) =
           map (\<lambda>cb. Called (cb_name cb) CompleteArgs) (observers regs ''complete'')"
    by (simp add: eq complete_emit_def at_n)
  show "host_intervals (clock_tick tn) = []" by (simp add: eq)
  show "intervalId (clock_tick tn) = None" by (simp add: eq)
  have ok: "timer_ok (clock_tick tn)" by (rule timer_ok_clock_tick [OF at_n(6)])
  have nr: "state (clock_tick tn) \<noteq> RUNNING" by (simp add: eq states_distinct)
  show "(clock_tick ^^ m) (clock_tick tn) = clock_tick tn"
    by (induction m) (simp_all add: clock_tick_not_running [OF ok nr])
qed

text \<open>
  C1 (as the code has it). A timer of duration \<open>n > 0\<close> with any observers registered,
  once started, is still Running after \<open>n\<close> units of the clock, with zero seconds
  remaining: each tick observer has then been called \<open>n\<close> times, in registration order
  within each tick, with the remaining times \<open>n - 1\<close> down to \<open>0\<close> (minutes, seconds and
  progress \<open>j / n * 100\<close> at the \<open>j\<close>-th tick), and no complete observer has been called.
  The next unit of the clock, the \<open>(n + 1)\<close>-th, calls no tick observer, sets the state
  to the value of \<open>TIMER_STATES.COMPLETED\<close>, clears the interval and calls each complete
  observer exactly once; every later unit of the clock changes nothing.
\<close>

theorem countdown_completes_one_tick_after_zero:
  fixes n m :: nat and regs :: "(string \<times> callback) list"
  assumes "0 < n"
  shows
    "let t0 = start (observed regs (int n));
         tn = (clock_tick ^^ n) t0;
         tn1 = clock_tick tn
     in state tn = RUNNING \<and> remainingTime tn = 0 \<and>
        tick_calls (trace tn) =
          concat (map (\<lambda>j. map (\<lambda>cb. Called (cb_name cb)
              (TickArgs ((int n - int j) div 60) ((int n - int j) mod 60)
                 (real j / real n * 100))) (observers regs ''tick'')) [1..<Suc n]) \<and>
        complete_calls (trace tn) = [] \<and>
        state tn1 = COMPLETED \<and> host_intervals tn1 = [] \<and>
        tick_calls (trace tn1) = tick_calls (trace tn) \<and>
        complete_calls (trace tn1) =
          map (\<lambda>cb. Called (cb_name cb) CompleteArgs) (observers regs ''complete'') \<and>
        (clock_tick ^^ m) tn1 = tn1"
  unfolding Let_def
  by (simp add: countdown_after_ticks [OF order_refl] countdown_expiry)

theorem countdown_completes_one_tick_after_zero_witness:
  "(0::nat) < 5 \<and>
   (let t0 = start (observed [(''tick'', obs ''T''), (''complete'', obs ''C'')] 5);
        t5 = (clock_tick ^^ 5) t0;
        t6 = clock_tick t5
    in state t5 = RUNNING \<and> remainingTime t5 = 0 \<and>
       tick_calls (trace t5) =
         [Called ''T'' (TickArgs 0 4 20), Called ''T'' (TickArgs 0 3 40),
          Called ''T'' (TickArgs 0 2 60), Called ''T'' (TickArgs 0 1 80),
          Called ''T'' (TickArgs 0 0 100)] \<and>
       complete_calls (trace t5) = [] \<and>
       state t6 = COMPLETED \<and> host_intervals t6 = [] \<and>
       tick_calls (trace t6) = tick_calls (trace t5) \<and>
       complete_calls (trace t6) = [Called ''C'' CompleteArgs] \<and>
       (clock_tick ^^ 3) t6 = t6)"
proof -
  have up: "[1..<Suc 5] = [1, 2, 3, 4, 5]"
    by (simp add: upt_rec)
  show ?thesis
    using countdown_completes_one_tick_after_zero
      [where n = 5 and regs = "[(''tick'', obs ''T''), (''complete'', obs ''C'')]" and m = 3]
    unfolding Let_def up
    by (simp add: observers_def obs_def)
qed

text \<open>
  C1 as stated fails at duration 5: after \<open>start()\<close> and five units of the clock the state
  is still Running (not Completed), the tick observer has been called five times (not
  four), and the complete observer has not been called.
\<close>

theorem five_ticks_counterexample:
  "let t5 = (clock_tick ^^ 5)
              (start (observed [(''tick'', obs ''T''), (''complete'', obs ''C'')] 5))
   in state t5 = RUNNING \<and> state t5 \<noteq> COMPLETED \<and>
      length (tick_calls (trace t5)) = 5 \<and>
      complete_calls (trace t5) = []"
proof -
  have up: "[1..<Suc 5] = [1, 2, 3, 4, 5]"
    by (simp add: upt_rec)
  show ?thesis
    unfolding Let_def
    by (simp add: countdown_after_ticks [of 5 5, simplified] up observers_def obs_def
        states_distinct)
qed

section \<open>The state machine and observer failure isolation\<close>

lemma step_state:
  assumes "timer_ok t"
  shows "state (step x t) = state t \<or>
       x = Start \<and> state (step x t) = RUNNING \<or>
       x = Pause \<and> state t = RUNNING \<and> state (step x t) = PAUSED \<or>
       (x = Reset \<or> (\<exists>n. x = SetDuration n)) \<and> state (step x t) = IDLE \<or>
       x = ClockTick \<and> state t = RUNNING \<and> remainingTime t \<le> 0 \<and> state (step x t) = COMPLETED"
proof (cases x)
  case Start
  then show ?thesis by (simp add: start_def setInterval_def)
next
  case Pause
  then show ?thesis by (simp add: pause_def)
next
  case Reset
  then show ?thesis by (simp add: reset_def)
next
  case (SetDuration n)
  then show ?thesis by (simp add: setDuration_def reset_def)
next
  case (On e cb)
  then show ?thesis by (simp add: on_def split: lookup.splits)
next
  case ClockTick
  show ?thesis
  proof (cases "state t = RUNNING")
    case True
    then show ?thesis
      using assms ClockTick
      by (simp add: clock_tick_running tick_def complete_timer_def Let_def)
  next
    case False
    then show ?thesis
      using assms ClockTick by (simp add: clock_tick_not_running)
  qed
qed

text \<open>
  C2 (as the code has it). The state is always one of the four values \<open>'idle'\<close>,
  \<open>'running'\<close>, \<open>'paused'\<close> and \<open>TIMER_STATES.COMPLETED\<close>, with Idle initial. After any
  sequence of operations, one more operation either leaves the state as it is or makes
  one of these transitions: any state but Running to Running by \<open>start()\<close>; Running to
  Paused by \<open>pause()\<close>; any state to Idle by \<open>reset()\<close> or \<open>setDuration()\<close>; Running to
  Completed by a unit of the clock that finds no time remaining. So Completed is entered
  only from Running by expiry, and it is left by \<open>reset()\<close>, \<open>setDuration()\<close> or
  \<open>start()\<close>.
\<close>

theorem timer_state_machine:
  "state (Timer d) = IDLE \<and>
   (let t = run ops (Timer d); s = state t; s' = state (step x t)
    in s \<in> {IDLE, RUNNING, PAUSED, COMPLETED} \<and>
       (s' = s \<or>
        x = Start \<and> s' = RUNNING \<or>
        x = Pause \<and> s = RUNNING \<and> s' = PAUSED \<or>
        (x = Reset \<or> (\<exists>n. x = SetDuration n)) \<and> s' = IDLE \<or>
        x = ClockTick \<and> s = RUNNING \<and> remainingTime t \<le> 0 \<and> s' = COMPLETED))"
proof -
  have ok: "timer_ok (run ops (Timer d))"
    by (rule timer_ok_run [OF timer_ok_Timer])
  then have "state (run ops (Timer d)) \<in> {IDLE, RUNNING, PAUSED, COMPLETED}"
    by (simp add: timer_ok_def)
  moreover have "state (Timer d) = IDLE" by (simp add: Timer_def)
  ultimately show ?thesis
    unfolding Let_def using step_state [OF ok, of x] by blast
qed

lemma run_Cons: "run (x # ops) t = run ops (step x t)"
  by (simp add: run_def)

lemma run_Nil: "run [] t = t"
  by (simp add: run_def)

text \<open>
  C2 as stated fails twice: \<open>reset()\<close> takes a Running timer to Idle, a transition the
  claim does not list, and \<open>start()\<close> takes a Completed timer back to Running, so
  Completed is not left by \<open>reset()\<close> only.
\<close>

theorem reset_while_running_counterexample:
  "(let t = run [Start] (Timer 5)
    in state t = RUNNING \<and> state (step Reset t) = IDLE \<and>
       \<not> spec_transition (state t) Reset (state (step Reset t))) \<and>
   (let c = run (Start # replicate 6 ClockTick) (Timer 5)
    in state c = COMPLETED \<and> state (step Start c) = RUNNING \<and>
       \<not> spec_transition (state c) Start (state (step Start c)))"
proof -
  have a: "state (run [Start] (Timer 5)) = RUNNING"
    by (simp add: run_def start_def setInterval_def)
  have b: "state (step Reset (run [Start] (Timer 5))) = IDLE"
    by (simp add: reset_def)
  have "run (Start # replicate 6 ClockTick) (Timer 5) =
      clock_tick ((clock_tick ^^ 5) (start (observed [] (int 5))))"
    by (simp add: run_def observed_def eval_nat_numeral)
  then have c: "state (run (Start # replicate 6 ClockTick) (Timer 5)) = COMPLETED"
    by (simp only: countdown_expiry)
  have d: "state (step Start (run (Start # replicate 6 ClockTick) (Timer 5))) = RUNNING"
    by (simp add: start_def c states_distinct setInterval_def)
  show ?thesis
    unfolding Let_def a b c d
    by (simp add: spec_transition_def states_distinct)
qed




lemma silence_fields [simp]:
  "duration (silence t) = duration t" "remainingTime (silence t) = remainingTime t"
  "state (silence t) = state t" "intervalId (silence t) = intervalId t"
  "host_intervals (silence t) = host_intervals t" "trace (silence t) = trace t"
  by (simp_all add: silence_def)

lemma cb_name_silenced [simp]: "cb_name (silenced cb) = cb_name cb"
  by (simp add: silenced_def)

lemma names_silenced [simp]:
  "map (\<lambda>cb. Called (cb_name cb) a) (map silenced cbs) = map (\<lambda>cb. Called (cb_name cb) a) cbs"
  by (simp add: o_def)













section \<open>Progress, repeated start and unknown events\<close>

lemma in_range_Timer: "in_range (Timer d)"
  by (auto simp: in_range_def Timer_def)

lemma tick_fields:
  "duration (tick t) = duration t"
  "remainingTime (tick t) = (if remainingTime t \<le> 0 then remainingTime t else remainingTime t - 1)"
  by (simp_all add: tick_def complete_timer_def Let_def)

lemma clock_tick_fields:
  assumes "timer_ok t"
  shows "duration (clock_tick t) = duration t"
    and "remainingTime (clock_tick t) = remainingTime t \<or>
         0 < remainingTime t \<and> remainingTime (clock_tick t) = remainingTime t - 1"
  using assms
  by (cases "state t = RUNNING";
      simp add: clock_tick_running clock_tick_not_running tick_fields)+

lemma in_range_step: "timer_ok t \<Longrightarrow> in_range t \<Longrightarrow> in_range (step x t)"
proof (cases x)
  case ClockTick
  assume "timer_ok t" "in_range t"
  then show ?thesis
    using clock_tick_fields [of t] ClockTick by (auto simp: in_range_def)
qed (auto simp: in_range_def start_def setInterval_def pause_def reset_def setDuration_def
      on_def split: lookup.splits)

lemma in_range_run: "in_range (run ops (Timer d))"
proof (induction ops rule: rev_induct)
  case Nil
  show ?case by (simp add: run_def in_range_Timer)
next
  case (snoc x ops)
  then show ?case
    by (simp add: run_snoc in_range_step timer_ok_run [OF timer_ok_Timer])
qed

lemma progress_bounds:
  assumes "in_range t"
  shows "0 \<le> getProgress t" "getProgress t \<le> 100"
    "(getProgress t = 100) = (0 < duration t \<and> remainingTime t = 0)"
proof -
  have "0 \<le> getProgress t \<and> getProgress t \<le> 100 \<and>
    (getProgress t = 100) = (0 < duration t \<and> remainingTime t = 0)"
  proof (cases "0 < duration t")
    case True
    with assms have "0 \<le> remainingTime t" "remainingTime t \<le> duration t"
      by (auto simp: in_range_def)
    with True show ?thesis
      by (simp add: getProgress_def divide_simps)
  next
    case False
    with assms have "duration t = 0 \<or> remainingTime t = duration t"
      by (auto simp: in_range_def)
    with False show ?thesis
      by (auto simp: getProgress_def)
  qed
  then show "0 \<le> getProgress t" "getProgress t \<le> 100"
    "(getProgress t = 100) = (0 < duration t \<and> remainingTime t = 0)"
    by simp_all
qed

lemma progress_mono:
  assumes "timer_ok t" "in_range t"
  shows "getProgress t \<le> getProgress (clock_tick t)"
proof -
  note f = clock_tick_fields [OF assms(1)]
  from f(2) show ?thesis
  proof
    assume "remainingTime (clock_tick t) = remainingTime t"
    then show ?thesis by (simp add: getProgress_def f(1))
  next
    assume a: "0 < remainingTime t \<and> remainingTime (clock_tick t) = remainingTime t - 1"
    with assms(2) have "0 < duration t" by (auto simp: in_range_def)
    with a show ?thesis
      by (simp add: getProgress_def f(1) divide_simps)
  qed
qed

text \<open>
  C6 (as the code has it). After any sequence of operations \<open>getProgress()\<close> returns
  \<open>(duration - remaining) / duration * 100\<close>, or 0 when the duration is 0; the value lies
  in \<open>[0, 100]\<close>, a unit of the clock never decreases it, it is 0 when the remaining
  time equals the duration, and it is 100 exactly when the duration is positive and no
  time remains. That is already so after the \<open>d\<close>-th tick of a started timer of
  duration \<open>d > 0\<close>, while the state is still Running: completion comes one tick later.
\<close>

theorem progress_properties:
  "let t = run ops (Timer d)
   in getProgress t =
        (if duration t = 0 then 0
         else real_of_int (duration t - remainingTime t) / real_of_int (duration t) * 100) \<and>
      0 \<le> getProgress t \<and> getProgress t \<le> 100 \<and>
      getProgress t \<le> getProgress (clock_tick t) \<and>
      (remainingTime t = duration t \<longrightarrow> getProgress t = 0) \<and>
      (duration t = 0 \<longrightarrow> getProgress t = 0) \<and>
      (getProgress t = 100) = (0 < duration t \<and> remainingTime t = 0) \<and>
      (0 < d \<longrightarrow>
         getProgress ((clock_tick ^^ nat d) (start (Timer d))) = 100 \<and>
         state ((clock_tick ^^ nat d) (start (Timer d))) = RUNNING)"
proof -
  let ?t = "run ops (Timer d)"
  have ok: "timer_ok ?t" by (rule timer_ok_run [OF timer_ok_Timer])
  have rg: "in_range ?t" by (rule in_range_run)
  have last: "getProgress ((clock_tick ^^ nat d) (start (Timer d))) = 100 \<and>
         state ((clock_tick ^^ nat d) (start (Timer d))) = RUNNING" if "0 < d"
  proof -
    from that obtain n where n: "d = int n" "0 < n"
      by (metis zero_less_imp_eq_int)
    have t: "Timer d = observed [] (int n)"
      by (simp add: observed_def run_def n)
    show ?thesis
      unfolding t
      using n(2)
      by (simp add: n(1) getProgress_def countdown_after_ticks [OF order_refl])
  qed
  show ?thesis
    unfolding Let_def
    using progress_bounds [OF rg] progress_mono [OF ok rg] last
    by (simp add: getProgress_def)
qed

theorem progress_properties_witness:
  "getProgress (run [] (Timer 5)) = 0 \<and>
   getProgress (run [Start, ClockTick] (Timer 5)) = 20 \<and>
   getProgress (run [] (Timer 0)) = 0 \<and>
   getProgress ((clock_tick ^^ nat 5) (start (Timer 5))) = 100 \<and>
   state ((clock_tick ^^ nat 5) (start (Timer 5))) = RUNNING"
proof -
  have a: "remainingTime (run [] (Timer 5)) = duration (run [] (Timer 5))"
    "duration (run [] (Timer 0)) = 0" "(0::int) < 5"
    by (simp_all add: run_def Timer_def)
  have b: "getProgress (run [Start, ClockTick] (Timer 5)) = 20"
    by (simp add: run_def Timer_def start_def setState_def setInterval_def clock_tick_def
        tick_def getProgress_def states_distinct callbacks_of_def Let_def)
  show ?thesis
    using progress_properties [of "[]" 5] progress_properties [of "[]" 0] a b
    unfolding Let_def by simp
qed

text \<open>
  C6 as stated fails at duration 5: after \<open>start()\<close> and five units of the clock
  \<open>getProgress()\<close> returns 100 although the state is Running, not Completed, and no
  complete observer has been called.
\<close>

theorem full_progress_while_running_counterexample:
  "let t = (clock_tick ^^ 5) (start (observed [(''complete'', obs ''C'')] 5))
   in getProgress t = 100 \<and> state t = RUNNING \<and> state t \<noteq> COMPLETED \<and>
      complete_calls (trace t) = []"
  unfolding Let_def
  by (simp add: countdown_after_ticks [of 5 5, simplified] getProgress_def states_distinct)

lemma one_interval: "length (host_intervals (run ops (Timer d))) \<le> 1"
  using timer_ok_run [OF timer_ok_Timer, of ops d]
  by (auto simp: timer_ok_def split: if_splits)

text \<open>
  C9. \<open>start()\<close> on a Running timer changes nothing: not the timer's fields, not the
  host's table of intervals, not the trace, so every later sequence of operations (ticks
  included) gives the same result as without the call. After any sequence of operations
  on a new timer the host has at most one active interval.
\<close>

theorem start_while_running_is_noop:
  assumes "state t = RUNNING"
  shows "start t = t \<and> run ops (start t) = run ops t \<and>
         length (host_intervals (run ops' (Timer d))) \<le> 1"
  using assms one_interval [of ops' d] by (simp add: start_def)

theorem start_while_running_is_noop_witness:
  "state (start (Timer 5)) = RUNNING \<and>
   start (start (Timer 5)) = start (Timer 5) \<and>
   host_intervals (start (start (Timer 5))) = [1] \<and>
   run [ClockTick] (start (start (Timer 5))) = run [ClockTick] (start (Timer 5)) \<and>
   remainingTime (run [ClockTick] (start (start (Timer 5)))) = 4 \<and>
   length (host_intervals (run [Start, Start] (Timer 5))) \<le> 1"
proof -
  have a: "state (start (Timer 5)) = RUNNING"
    by (simp add: start_def setInterval_def)
  have b: "host_intervals (start (Timer 5)) = [1]"
    by (simp add: start_def setInterval_def Timer_def states_distinct)
  have c: "remainingTime (run [ClockTick] (start (Timer 5))) = 4"
    using countdown_after_ticks(2) [of 1 5 "[]"]
    by (simp add: run_def observed_def)
  note th = start_while_running_is_noop [OF a, of "[ClockTick]" "[Start, Start]" 5]
  from th have d: "start (start (Timer 5)) = start (Timer 5)" by (rule conjunct1)
  from th have e: "run [ClockTick] (start (start (Timer 5))) = run [ClockTick] (start (Timer 5))"
    by (rule conjunct1 [OF conjunct2])
  from th have f: "length (host_intervals (run [Start, Start] (Timer 5))) \<le> 1"
    by (rule conjunct2 [OF conjunct2])
  show ?thesis
    unfolding d e
    by (intro conjI a b c f refl)
qed

lemma own_keys: "map fst (callbacks (run ops (Timer d))) = [''tick'', ''complete'', ''stateChange'']"
  using timer_ok_run [OF timer_ok_Timer, of ops d] by (simp add: timer_ok_def)

lemma not_own:
  assumes "e \<notin> {''tick'', ''complete'', ''stateChange''}"
  shows "map_of (callbacks (run ops (Timer d))) e = None"
proof -
  have "e \<notin> fst ` set (callbacks (run ops (Timer d)))"
  proof
    assume "e \<in> fst ` set (callbacks (run ops (Timer d)))"
    then have "e \<in> set (map fst (callbacks (run ops (Timer d))))" by simp
    then show False using assms unfolding own_keys by simp
  qed
  then show ?thesis by (simp add: map_of_eq_None_iff)
qed

lemma on_unknown_event_noop:
  assumes "e \<notin> {''tick'', ''complete'', ''stateChange''}" "e \<notin> set Object_prototype_keys"
  shows "on e cb (run ops (Timer d)) = Inr (run ops (Timer d))"
  using assms by (simp add: on_def get_prop_def not_own)

text \<open>
  C10 fails for an event name that \<open>Object.prototype\<close> defines: after any sequence of
  operations \<open>on('toString', callback)\<close> throws a TypeError, because
  \<open>this.#callbacks['toString']\<close> is the inherited function, which is truthy and has no
  \<open>push\<close>. (For every other name outside the three events the call is the silent no-op
  of the claim: lemma \<open>on_unknown_event_noop\<close>.)
\<close>

theorem on_inherited_name_throws:
  "on ''toString'' cb (run ops (Timer d)) =
     Inl (TypeError ''this.#callbacks[event].push is not a function'')"
  by (simp add: on_def get_prop_def not_own Object_prototype_keys_def)

section \<open>Properties of the TaskManager\<close>

lemma trim_idem: "trim (trim s) = trim s"
proof -
  let ?P = is_js_space
  let ?a = "dropWhile ?P s"
  let ?b = "dropWhile ?P (rev ?a)"
  show ?thesis
  proof (cases "?b = []")
    case True
    have "trim s = rev ?b" by (simp only: trim_def)
    with True have "trim s = []" by simp
    moreover have "trim [] = []" by (simp add: trim_def)
    ultimately show ?thesis by simp
  next
    case False
    have "rev ?a = takeWhile ?P (rev ?a) @ ?b" by simp
    then have "?a = rev ?b @ rev (takeWhile ?P (rev ?a))"
      by (metis rev_append rev_rev_ident)
    with False have "hd (rev ?b) = hd ?a" "?a \<noteq> []"
      by (metis hd_append2 rev_is_Nil_conv, metis Nil_is_append_conv rev_is_Nil_conv)
    then have "\<not> ?P (hd (rev ?b))"
      using hd_dropWhile [of ?P s] by simp
    then have "dropWhile ?P (rev ?b) = rev ?b"
      by (simp add: dropWhile_eq_self_iff)
    then show ?thesis
      by (simp add: trim_def)
  qed
qed

lemma validate_trim: "validateTaskName n \<Longrightarrow> validateTaskName (trim n)"
  by (auto simp: validateTaskName_def trim_idem)

lemma trim_all_space:
  assumes "list_all is_js_space s"
  shows "trim s = []"
proof -
  from assms have "\<forall>x\<in>set s. is_js_space x" by (simp only: list_all_iff)
  then have "dropWhile is_js_space s = []" by (simp only: dropWhile_eq_Nil_conv)
  then show ?thesis by (simp only: trim_def rev.simps dropWhile.simps)
qed

lemma task_inv_new: "task_inv TaskManager"
  by (simp add: task_inv_def TaskManager_def)

lemma task_inv_step: "task_inv tm \<Longrightarrow> task_inv (task_step x tm)"
  by (cases x)
     (auto simp: task_inv_def setCurrentTask_def completeCurrentTask_def completeTask_def
        clearCurrentTask_def validate_trim trim_idem Let_def
        split: option.splits sum.splits if_splits)

lemma task_inv_run: "task_inv (task_run ops TaskManager)"
  by (induction ops rule: rev_induct) (simp_all add: task_run_def task_inv_new task_inv_step)

lemma completeCurrentTask_ok:
  assumes "task_inv tm" "currentTask tm = Some cur" "0 < d"
  shows "completeCurrentTask d now rnd tm =
     Inr (tm\<lparr>currentTask := None,
             completedTasks := completedTasks tm @
               [\<lparr>ct_id = generateTaskId now rnd, ct_name = task_name cur, ct_duration = d,
                 completedAt = now,
                 sessionCount = Suc (calculateSessionsForTask tm (task_name cur))\<rparr>]\<rparr>,
          \<lparr>ct_id = generateTaskId now rnd, ct_name = task_name cur, ct_duration = d,
           completedAt = now,
           sessionCount = Suc (calculateSessionsForTask tm (task_name cur))\<rparr>)"
  using assms
  by (simp add: completeCurrentTask_def completeTask_def task_inv_def Let_def
      clearCurrentTask_def)

text \<open>
  C7. \<open>completeCurrentTask\<close> throws \<open>No active task to complete\<close> (the illegal state)
  whenever no current task is set, whatever the duration; with a current task it throws
  \<open>Duration must be a positive number\<close> (the invalid input) whenever the duration is not
  positive, so with a duration that is not positive it always fails. \<open>setCurrentTask\<close>
  throws \<open>Task name must be a non-empty string\<close> for the empty string and for every name
  made of white space only. On a manager reached by any sequence of calls, with a current
  task set and a positive duration, \<open>completeCurrentTask\<close> returns a completed task
  with the current task's name, the duration, the time of the call and the count of
  earlier completions of that name plus one; the record is appended to the history and
  the current task is cleared.
\<close>

theorem task_ledger_contract:
  "(currentTask tm = None \<longrightarrow>
      completeCurrentTask d now rnd tm = Inl (Error ''No active task to complete'')) \<and>
   (currentTask tm \<noteq> None \<and> d \<le> 0 \<longrightarrow>
      completeCurrentTask d now rnd tm = Inl (Error ''Duration must be a positive number'')) \<and>
   (d \<le> 0 \<longrightarrow> isl (completeCurrentTask d now rnd tm)) \<and>
   setCurrentTask [] now rnd tm = Inl (Error ''Task name must be a non-empty string'') \<and>
   (list_all is_js_space name \<longrightarrow>
      setCurrentTask name now rnd tm = Inl (Error ''Task name must be a non-empty string'')) \<and>
   (\<forall>cur. currentTask (task_run ops TaskManager) = Some cur \<and> 0 < d \<longrightarrow>
      (\<exists>r. completeCurrentTask d now rnd (task_run ops TaskManager) =
             Inr ((task_run ops TaskManager)
                    \<lparr>currentTask := None,
                     completedTasks := completedTasks (task_run ops TaskManager) @ [r]\<rparr>, r) \<and>
           ct_name r = task_name cur \<and> ct_duration r = d \<and> completedAt r = now \<and>
           sessionCount r =
             Suc (calculateSessionsForTask (task_run ops TaskManager) (task_name cur))))"
proof -
  have a: "currentTask tm = None \<longrightarrow>
      completeCurrentTask d now rnd tm = Inl (Error ''No active task to complete'')"
    by (simp add: completeCurrentTask_def)
  have b: "currentTask tm \<noteq> None \<and> d \<le> 0 \<longrightarrow>
      completeCurrentTask d now rnd tm = Inl (Error ''Duration must be a positive number'')"
    by (auto simp: completeCurrentTask_def)
  have c: "d \<le> 0 \<longrightarrow> isl (completeCurrentTask d now rnd tm)"
    by (simp add: completeCurrentTask_def split: option.splits)
  have e: "setCurrentTask [] now rnd tm = Inl (Error ''Task name must be a non-empty string'')"
    by (simp add: setCurrentTask_def validateTaskName_def)
  have f: "list_all is_js_space name \<longrightarrow>
      setCurrentTask name now rnd tm = Inl (Error ''Task name must be a non-empty string'')"
    by (simp add: setCurrentTask_def validateTaskName_def trim_all_space)
  have g: "\<exists>r. completeCurrentTask d now rnd (task_run ops TaskManager) =
             Inr ((task_run ops TaskManager)
                    \<lparr>currentTask := None,
                     completedTasks := completedTasks (task_run ops TaskManager) @ [r]\<rparr>, r) \<and>
           ct_name r = task_name cur \<and> ct_duration r = d \<and> completedAt r = now \<and>
           sessionCount r =
             Suc (calculateSessionsForTask (task_run ops TaskManager) (task_name cur))"
    if "currentTask (task_run ops TaskManager) = Some cur" "0 < d" for cur
    using completeCurrentTask_ok [OF task_inv_run that, of now rnd] by simp
  from a b c e f g show ?thesis by blast
qed

lemma trim_report: "trim ''Write report'' = ''Write report''"
  by (simp add: trim_def is_js_space_def)

lemma report_set_eq:
  "report_set =
     \<lparr>currentTask = Some \<lparr>task_name = ''Write report'', startedAt = 1000,
                            task_id = generateTaskId 1000 ''x''\<rparr>,
      completedTasks = []\<rparr>"
  by (simp add: report_set_def task_run_def setCurrentTask_def validateTaskName_def
      trim_report TaskManager_def)

theorem task_ledger_contract_witness:
  "completeCurrentTask 30 2000 ''y'' TaskManager = Inl (Error ''No active task to complete'') \<and>
   completeCurrentTask 0 2000 ''y'' report_set =
     Inl (Error ''Duration must be a positive number'') \<and>
   isl (completeCurrentTask 0 2000 ''y'' report_set) \<and>
   setCurrentTask ''  '' 1000 ''x'' TaskManager =
     Inl (Error ''Task name must be a non-empty string'') \<and>
   (\<exists>r. completeCurrentTask 30 2000 ''y'' report_set =
          Inr (report_set\<lparr>currentTask := None, completedTasks := [r]\<rparr>, r) \<and>
        ct_name r = ''Write report'' \<and> ct_duration r = 30 \<and> completedAt r = 2000 \<and>
        sessionCount r = 1)"
proof -
  have h1: "currentTask TaskManager = None" by (simp add: TaskManager_def)
  have h2: "currentTask report_set \<noteq> None \<and> (0::int) \<le> 0" by (simp add: report_set_eq)
  have h3: "list_all is_js_space ''  ''" by (simp add: is_js_space_def)
  have h4: "currentTask report_set =
      Some \<lparr>task_name = ''Write report'', startedAt = 1000, task_id = generateTaskId 1000 ''x''\<rparr> \<and>
      (0::int) < 30"
    by (simp add: report_set_eq)
  have h5: "completedTasks report_set = []"
    "calculateSessionsForTask report_set ''Write report'' = 0"
    by (simp_all add: report_set_eq calculateSessionsForTask_def)
  note t1 = task_ledger_contract [where tm = TaskManager and d = 30 and now = 2000 and rnd = "''y''"]
  note t2 = task_ledger_contract [where tm = report_set and d = 0 and now = 2000 and rnd = "''y''"]
  note t3 = task_ledger_contract [where tm = TaskManager and name = "''  ''" and now = 1000
      and rnd = "''x''"]
  note t4 = task_ledger_contract [where ops = "[SetCurrentTask ''Write report'' 1000 ''x'']"
      and d = 30 and now = 2000 and rnd = "''y''", folded report_set_def]
  have a: "completeCurrentTask 30 2000 ''y'' TaskManager = Inl (Error ''No active task to complete'')"
    using t1 h1 by blast
  have b: "completeCurrentTask 0 2000 ''y'' report_set =
     Inl (Error ''Duration must be a positive number'')"
    using t2 h2 by blast
  have c: "isl (completeCurrentTask 0 2000 ''y'' report_set)"
    using t2 by blast
  have d: "setCurrentTask ''  '' 1000 ''x'' TaskManager =
     Inl (Error ''Task name must be a non-empty string'')"
    using t3 h3 by blast
  from t4 h4 obtain r where r:
    "completeCurrentTask 30 2000 ''y'' report_set =
       Inr (report_set\<lparr>currentTask := None,
              completedTasks := completedTasks report_set @ [r]\<rparr>, r)"
    "ct_name r = ''Write report''" "ct_duration r = 30" "completedAt r = 2000"
    "sessionCount r = Suc (calculateSessionsForTask report_set ''Write report'')"
    by (metis task.select_convs(1))
  have e: "\<exists>r. completeCurrentTask 30 2000 ''y'' report_set =
          Inr (report_set\<lparr>currentTask := None, completedTasks := [r]\<rparr>, r) \<and>
        ct_name r = ''Write report'' \<and> ct_duration r = 30 \<and> completedAt r = 2000 \<and>
        sessionCount r = 1"
    using r by (intro exI [of _ r]) (simp add: h5 trim_report)
  from a b c d e show ?thesis by blast
qed

lemmas civil_defs = civil_from_days_def civil_of_shifted_def civil_of_doe_def civil_of_yoe_def
  civil_of_doy_def civil_of_mp_def civil_of_month_def

lemmas print_defs = toDateString_def dateString_of_day_def civil_defs msPerDay_def
  day_names_def month_names_def pad2_def pad4_def digit_def

lemmas parse_defs = Date_parse_def day_names_def month_names_def digit_val_def
  days_from_civil_def days_of_year_day_def msPerDay_def

lemma four_days_times:
  "map completedAt (completedTasks (four_days 19724)) =
     [1704186000000, 1704272400000, 1704358800000, 1704531600000]"
  by (simp add: four_days_def task_run_def completeTask_def validateTaskName_def trim_report
      TaskManager_def msPerDay_def Let_def)

lemma january_2024:
  "toDateString 1704186000000 = ''Tue Jan 02 2024''"
  "toDateString 1704272400000 = ''Wed Jan 03 2024''"
  "toDateString 1704358800000 = ''Thu Jan 04 2024''"
  "toDateString 1704531600000 = ''Sat Jan 06 2024''"
  "toDateString 1704708000000 = ''Mon Jan 08 2024''"
  by (simp_all add: print_defs)

lemma january_2024_parsed:
  "Date_parse ''Tue Jan 02 2024'' = Some 1704153600000"
  "Date_parse ''Wed Jan 03 2024'' = Some 1704240000000"
  "Date_parse ''Thu Jan 04 2024'' = Some 1704326400000"
  "Date_parse ''Sat Jan 06 2024'' = Some 1704499200000"
  by (simp_all add: parse_defs)

lemma four_days_dates:
  "map (\<lambda>task. toDateString (completedAt task)) (completedTasks (four_days 19724)) =
     [''Tue Jan 02 2024'', ''Wed Jan 03 2024'', ''Thu Jan 04 2024'', ''Sat Jan 06 2024'']"
proof -
  have "map (\<lambda>task. toDateString (completedAt task)) (completedTasks (four_days 19724)) =
      map toDateString (map completedAt (completedTasks (four_days 19724)))"
    by (simp add: o_def)
  then show ?thesis
    by (simp only: four_days_times list.map january_2024)
qed

lemma four_days_sorted:
  "sort_strings (Set_of
     [''Tue Jan 02 2024'', ''Wed Jan 03 2024'', ''Thu Jan 04 2024'', ''Sat Jan 06 2024'']) =
   [''Sat Jan 06 2024'', ''Thu Jan 04 2024'', ''Tue Jan 02 2024'', ''Wed Jan 03 2024'']"
  by (simp add: sort_strings_def Set_of_def)

lemma four_days_loop:
  "streak_loop
     [''Sat Jan 06 2024'', ''Thu Jan 04 2024'', ''Tue Jan 02 2024'', ''Wed Jan 03 2024'']
     (0, 0) = (2, 2)"
  by (simp add: dayDiff_is_1_def january_2024_parsed msPerDay_def)

text \<open>
  C5 fails for \<open>D\<close> = Tuesday 2 January 2024 (day 19724), with today \<open>D + 6\<close> at 10:00.
  The date strings are sorted as strings, so by the name of the week day first:
  Saturday the 6th, Thursday the 4th, Tuesday the 2nd, Wednesday the 3rd. The loop then
  finds one pair of consecutive dates and counts the last date, and \<open>getStreakInfo()\<close>
  returns \<open>longestStreak = 2\<close>, not 3, with Wednesday the 3rd as the last active
  date; \<open>currentStreak\<close> is 0, as the claim says.
\<close>

theorem three_day_streak_reported_as_two:
  "map (\<lambda>task. toDateString (completedAt task)) (completedTasks (four_days 19724)) =
     [''Tue Jan 02 2024'', ''Wed Jan 03 2024'', ''Thu Jan 04 2024'', ''Sat Jan 06 2024''] \<and>
   toDateString 1704708000000 = ''Mon Jan 08 2024'' \<and>
   getStreakInfo 1704708000000 (four_days 19724) =
     \<lparr>currentStreak = 0, longestStreak = 2, lastActiveDate = Some 1704240000000\<rparr>"
proof -
  have ne: "length (completedTasks (four_days 19724)) \<noteq> 0"
    using four_days_times by (metis length_map list.distinct(1) length_0_conv)
  have "getStreakInfo 1704708000000 (four_days 19724) =
     \<lparr>currentStreak = 0, longestStreak = 2, lastActiveDate = Some 1704240000000\<rparr>"
    unfolding getStreakInfo_def four_days_dates four_days_sorted Let_def four_days_loop
    using ne by (simp add: january_2024_parsed msPerDay_def)
  then show ?thesis
    by (simp add: four_days_dates january_2024)
qed

section \<open>Properties of the session coordinator\<close>

lemma call_simps [simp]:
  "fst (call h c m a) = h c m"
  "isBreakMode (snd (call h c m a)) = isBreakMode a"
  "app_sessionCount (snd (call h c m a)) = app_sessionCount a"
  "app_currentTask (snd (call h c m a)) = app_currentTask a"
  "app_log (snd (call h c m a)) = app_log a @ [(c, m)]"
  by (simp_all add: call_def)

lemma storage_calls_call:
  "storage_calls (snd (call h c m a)) =
     storage_calls a @ (if c = STORAGE then [(c, m)] else [])"
  by (simp add: storage_calls_def)

lemma handleError_fields [simp]:
  "isBreakMode (snd (handleError h a)) = isBreakMode a"
  "app_sessionCount (snd (handleError h a)) = app_sessionCount a"
  "app_currentTask (snd (handleError h a)) = app_currentTask a"
  "storage_calls (snd (handleError h a)) = storage_calls a"
  "set (app_log a) \<subseteq> set (app_log (snd (handleError h a)))"
  by (auto simp: handleError_def storage_calls_call)












end
